theory Spec2Isabelle
  imports Main "HOL-Library.Word" "HOL-Library.Sublist"
begin

section \<open>Python values and exceptions\<close>

text \<open>
  A Python \<open>str\<close> is a sequence of Unicode code points, a \<open>bytes\<close> object a sequence of
  8-bit values. The code under verification turns one into the other
  (\<^verbatim>\<open>k8s_token.encode()\<close>, \<^verbatim>\<open>.decode()\<close>), so the two are kept apart: code points
  are natural numbers, bytes are \<^typ>\<open>char\<close> (HOL's 8-bit character type).
\<close>

type_synonym pystr = "nat list"
type_synonym bytes = "char list"

text \<open>A string literal of the source, all of whose characters are ASCII.\<close>

definition ascii :: "string \<Rightarrow> pystr" where
  "ascii s = map of_char s"

text \<open>
  What \<^verbatim>\<open>json.loads\<close> can return, and \<open>None\<close>. A \<open>dict\<close> is an association list read
  with \<^const>\<open>map_of\<close>; a float is kept as its IEEE 754 bit pattern, no arithmetic is done on it.
\<close>

datatype pyval =
    PNone
  | PBool bool
  | PInt int
  | PFloat "64 word"
  | PStr pystr
  | PList "pyval list"
  | PDict "(pystr \<times> pyval) list"

text \<open>
  The exceptions the code can raise or let through. \<open>RefreshError\<close> carries its message, its
  payload and the exception it was raised from (\<^verbatim>\<open>six.raise_from\<close>); \<open>OtherException\<close>
  stands for whatever else a collaborator raises, by class name.
\<close>

datatype exn =
    KeyError pystr
  | TypeError
  | AttributeError
  | UnicodeEncodeError
  | UnicodeDecodeError
  | ValueError
  | BinasciiError
  | RefreshError pystr pyval "exn option"
  | OtherException pystr

section \<open>The codecs of the standard library\<close>

subsection \<open>\<^verbatim>\<open>str.encode()\<close> and \<^verbatim>\<open>bytes.decode()\<close>: strict UTF-8\<close>

definition is_surrogate :: "nat \<Rightarrow> bool" where
  "is_surrogate cp \<longleftrightarrow> 0xD800 \<le> cp \<and> cp \<le> 0xDFFF"

text \<open>
  One code point. A surrogate has no UTF-8 form and raises; a number from \<open>0x110000\<close> on is
  no code point at all (no \<open>str\<close> holds one) and is refused the same way.
\<close>

definition utf8_encode_cp :: "nat \<Rightarrow> exn + bytes" where
  "utf8_encode_cp cp =
     (if cp < 0x80 then Inr [char_of cp]
      else if cp < 0x800 then
        Inr [char_of (0xC0 + cp div 64), char_of (0x80 + cp mod 64)]
      else if is_surrogate cp then Inl UnicodeEncodeError
      else if cp < 0x10000 then
        Inr [char_of (0xE0 + cp div 4096), char_of (0x80 + cp div 64 mod 64),
             char_of (0x80 + cp mod 64)]
      else if cp < 0x110000 then
        Inr [char_of (0xF0 + cp div 262144), char_of (0x80 + cp div 4096 mod 64),
             char_of (0x80 + cp div 64 mod 64), char_of (0x80 + cp mod 64)]
      else Inl UnicodeEncodeError)"

fun str_encode :: "pystr \<Rightarrow> exn + bytes" where
  "str_encode [] = Inr []"
| "str_encode (cp # s) =
     (case utf8_encode_cp cp of
        Inl e \<Rightarrow> Inl e
      | Inr bs \<Rightarrow> (case str_encode s of Inl e \<Rightarrow> Inl e | Inr r \<Rightarrow> Inr (bs @ r)))"

definition is_continuation :: "char \<Rightarrow> bool" where
  "is_continuation c \<longleftrightarrow> 0x80 \<le> (of_char c :: nat) \<and> (of_char c :: nat) < 0xC0"

definition payload :: "char \<Rightarrow> nat" where
  "payload c = of_char c mod 64"

definition decoded :: "nat \<Rightarrow> exn + pystr \<Rightarrow> exn + pystr" where
  "decoded cp r = (case r of Inl e \<Rightarrow> Inl e | Inr s \<Rightarrow> Inr (cp # s))"

text \<open>
  The strict decoder: the lead byte gives the length; overlong forms, surrogates, values
  beyond \<open>0x10FFFF\<close>, stray or missing continuation bytes are errors.
\<close>

fun bytes_decode :: "bytes \<Rightarrow> exn + pystr" where
  "bytes_decode [] = Inr []"
| "bytes_decode (c0 # r0) =
     (let b0 = (of_char c0 :: nat) in
      if b0 < 0x80 then decoded b0 (bytes_decode r0)
      else if b0 < 0xC2 then Inl UnicodeDecodeError
      else if b0 < 0xE0 then
        (case r0 of
           c1 # r1 \<Rightarrow>
             if is_continuation c1
             then decoded ((b0 - 0xC0) * 64 + payload c1) (bytes_decode r1)
             else Inl UnicodeDecodeError
         | _ \<Rightarrow> Inl UnicodeDecodeError)
      else if b0 < 0xF0 then
        (case r0 of
           c1 # c2 # r2 \<Rightarrow>
             (let cp = (b0 - 0xE0) * 4096 + payload c1 * 64 + payload c2 in
              if is_continuation c1 \<and> is_continuation c2 \<and> 0x800 \<le> cp \<and> \<not> is_surrogate cp
              then decoded cp (bytes_decode r2)
              else Inl UnicodeDecodeError)
         | _ \<Rightarrow> Inl UnicodeDecodeError)
      else if b0 < 0xF5 then
        (case r0 of
           c1 # c2 # c3 # r3 \<Rightarrow>
             (let cp = (b0 - 0xF0) * 262144 + payload c1 * 4096 + payload c2 * 64 + payload c3 in
              if is_continuation c1 \<and> is_continuation c2 \<and> is_continuation c3
                 \<and> 0x10000 \<le> cp \<and> cp < 0x110000
              then decoded cp (bytes_decode r3)
              else Inl UnicodeDecodeError)
         | _ \<Rightarrow> Inl UnicodeDecodeError)
      else Inl UnicodeDecodeError)"

subsection \<open>\<^verbatim>\<open>base64.b64encode\<close> and \<^verbatim>\<open>base64.b64decode\<close>\<close>

definition b64_alphabet :: string where
  "b64_alphabet = ''ABCDEFGHIJKLMNOPQRSTUVWXYZabcdefghijklmnopqrstuvwxyz0123456789+/''"

definition b64_char :: "nat \<Rightarrow> char" where
  "b64_char n = b64_alphabet ! n"

fun index_from :: "nat \<Rightarrow> 'a \<Rightarrow> 'a list \<Rightarrow> nat option" where
  "index_from i x [] = None"
| "index_from i x (y # ys) = (if x = y then Some i else index_from (Suc i) x ys)"

definition b64_index :: "char \<Rightarrow> nat option" where
  "b64_index c = index_from 0 c b64_alphabet"

text \<open>Three bytes become four characters; a last group of one or two bytes is padded.\<close>

fun b64encode :: "bytes \<Rightarrow> bytes" where
  "b64encode [] = []"
| "b64encode [a] =
     (let x = (of_char a :: nat) in
      [b64_char (x div 4), b64_char (x mod 4 * 16), CHR ''='', CHR ''=''])"
| "b64encode [a, b] =
     (let x = (of_char a :: nat); y = (of_char b :: nat) in
      [b64_char (x div 4), b64_char (x mod 4 * 16 + y div 16), b64_char (y mod 16 * 4),
       CHR ''=''])"
| "b64encode (a # b # c # r) =
     (let x = (of_char a :: nat); y = (of_char b :: nat); z = (of_char c :: nat) in
      [b64_char (x div 4), b64_char (x mod 4 * 16 + y div 16),
       b64_char (y mod 16 * 4 + z div 64), b64_char (z mod 64)] @ b64encode r)"

text \<open>
  Decoding of padded text over the alphabet, group by group. Python's default mode also
  skips characters outside the alphabet; here they are an error, as is a length that is not
  a multiple of four.
\<close>

fun b64decode :: "bytes \<Rightarrow> exn + bytes" where
  "b64decode [] = Inr []"
| "b64decode (c0 # c1 # c2 # c3 # r) =
     (case (b64_index c0, b64_index c1) of
        (Some x0, Some x1) \<Rightarrow>
          if c2 = CHR ''='' \<and> c3 = CHR ''='' \<and> r = []
          then Inr [char_of (x0 * 4 + x1 div 16)]
          else (case b64_index c2 of
             None \<Rightarrow> Inl BinasciiError
           | Some x2 \<Rightarrow>
               if c3 = CHR ''='' \<and> r = []
               then Inr [char_of (x0 * 4 + x1 div 16), char_of (x1 mod 16 * 16 + x2 div 4)]
               else (case b64_index c3 of
                  None \<Rightarrow> Inl BinasciiError
                | Some x3 \<Rightarrow>
                    (case b64decode r of
                       Inl e \<Rightarrow> Inl e
                     | Inr bs \<Rightarrow>
                         Inr (char_of (x0 * 4 + x1 div 16)
                              # char_of (x1 mod 16 * 16 + x2 div 4)
                              # char_of (x2 mod 4 * 64 + x3) # bs))))
      | _ \<Rightarrow> Inl BinasciiError)"
| "b64decode _ = Inl BinasciiError"

text \<open>
  \<^verbatim>\<open>base64.b64decode\<close> takes a \<open>str\<close> as well, if it is ASCII
  (\<^verbatim>\<open>s.encode('ascii')\<close>, a \<open>ValueError\<close> otherwise).
\<close>

fun ascii_encode :: "pystr \<Rightarrow> exn + bytes" where
  "ascii_encode [] = Inr []"
| "ascii_encode (cp # s) =
     (if cp < 0x80
      then (case ascii_encode s of Inl e \<Rightarrow> Inl e | Inr r \<Rightarrow> Inr (char_of cp # r))
      else Inl ValueError)"

text \<open>\<^verbatim>\<open>base64.b64decode(s).decode()\<close>: what a reader of the encoded text gets back.\<close>

definition b64decode_str :: "pystr \<Rightarrow> exn + pystr" where
  "b64decode_str s =
     (case ascii_encode s of
        Inl e \<Rightarrow> Inl e
      | Inr cs \<Rightarrow> (case b64decode cs of Inl e \<Rightarrow> Inl e | Inr bs \<Rightarrow> bytes_decode bs))"

section \<open>The credentials object\<close>

type_synonym datetime = int

text \<open>
  Modelled from the spec: the state that the base class \<^verbatim>\<open>credentials.Credentials\<close>
  (not part of the file under verification) gives every credential: the current access
  token and its expiry, both absent until the first successful refresh.
\<close>

record base_credentials =
  token :: pyval
  expiry :: "datetime option"

text \<open>
  Modelled from the spec: the initialiser of the base class, called as
  \<^verbatim>\<open>super(Credentials, self).__init__()\<close>; an instance starts unrefreshed.
\<close>

definition base_init :: base_credentials where
  "base_init = \<lparr>token = PNone, expiry = None\<rparr>"

text \<open>The attributes set by \<^verbatim>\<open>Credentials.__init__\<close> (without their leading underscore).\<close>

record credentials = base_credentials +
  k8s_ca_cert_path :: pystr
  k8s_cert_path :: pystr
  k8s_key_path :: pystr
  k8s_token_endpoint :: pystr
  ais_ca_cert_path :: pystr
  ais_token_endpoint :: pystr
  audience :: pystr
  quota_project_id :: "pystr option"

definition init ::
  "pystr \<Rightarrow> pystr \<Rightarrow> pystr \<Rightarrow> pystr \<Rightarrow> pystr \<Rightarrow> pystr \<Rightarrow> pystr \<Rightarrow> pystr option \<Rightarrow> credentials"
where
  "init ca crt key k8s_ep ais_ca ais_ep aud quota =
     \<lparr>token = token base_init, expiry = expiry base_init,
      k8s_ca_cert_path = ca, k8s_cert_path = crt, k8s_key_path = key,
      k8s_token_endpoint = k8s_ep, ais_ca_cert_path = ais_ca, ais_token_endpoint = ais_ep,
      audience = aud, quota_project_id = quota\<rparr>"

text \<open>
  Instances live in a heap; a reference is an index into it. A method is called on a
  reference to a live object, and a constructor call appends a fresh object.
\<close>

type_synonym ref = nat
type_synonym heap = "credentials list"

definition live :: "heap \<Rightarrow> ref \<Rightarrow> bool" where
  "live h self \<longleftrightarrow> self < length h"

definition with_audience :: "heap \<Rightarrow> ref \<Rightarrow> pystr \<Rightarrow> ref \<times> heap" where
  "with_audience h self aud =
     (let c = h ! self in
      (length h,
       h @ [init (k8s_ca_cert_path c) (k8s_cert_path c) (k8s_key_path c)
              (k8s_token_endpoint c) (ais_ca_cert_path c) (ais_token_endpoint c)
              aud (quota_project_id c)]))"

definition with_quota_project :: "heap \<Rightarrow> ref \<Rightarrow> pystr option \<Rightarrow> ref \<times> heap" where
  "with_quota_project h self quota =
     (let c = h ! self in
      (length h,
       h @ [init (k8s_ca_cert_path c) (k8s_cert_path c) (k8s_key_path c)
              (k8s_token_endpoint c) (ais_ca_cert_path c) (ais_token_endpoint c)
              (audience c) quota]))"

section \<open>The collaborators and what a refresh can be observed to do\<close>

text \<open>
  One call of \<^verbatim>\<open>_client._token_endpoint_request\<close>, by its eight positional arguments:
  the transport, the URL, the body, two arguments that the code always passes as
  \<open>None\<close> and \<open>True\<close>, the client certificate pair, the CA path, and the expected status
  (absent when the call leaves it to the helper's default).
\<close>

record 'r call =
  request :: 'r
  url :: pystr
  body :: "(pystr \<times> pyval) list"
  fourth :: pyval
  fifth :: bool
  cert :: "(pystr \<times> pystr) option"
  verify :: pystr
  expected_status :: "nat option"

text \<open>
  \<^verbatim>\<open>print(template.format(value))\<close>, recorded by its template and its argument.
\<close>

datatype printed = Print string pyval

text \<open>
  What the code calls and does not define. The module \<^verbatim>\<open>_client\<close> is not part of the
  file under verification: its two helpers are parameters. So is the write to
  \<^verbatim>\<open>sys.stdout\<close> behind \<^verbatim>\<open>print\<close>, which raises when the stream does not take the
  text (\<open>UnicodeEncodeError\<close> when its encoding has no form for it, as for a lone surrogate
  on a UTF-8 stream). Each of the three may read and change the outside world \<open>'w\<close>
  (network, clock, stream) and either returns or raises.
\<close>

record ('r, 'w) env =
  token_endpoint_request :: "'r call \<Rightarrow> 'w \<Rightarrow> (exn + pyval) \<times> 'w"
  handle_refresh_grant_response ::
    "pyval \<Rightarrow> pyval \<Rightarrow> 'w \<Rightarrow> (exn + pyval \<times> pyval \<times> datetime option \<times> pyval) \<times> 'w"
  stdout_write :: "printed \<Rightarrow> 'w \<Rightarrow> (exn + unit) \<times> 'w"

text \<open>
  What \<^verbatim>\<open>template.format(value)\<close> is when \<open>value\<close> is a \<open>str\<close>: the text with
  its first replacement field \<^verbatim>\<open>{}\<close> filled in.
\<close>

fun format_str :: "string \<Rightarrow> pystr \<Rightarrow> pystr" where
  "format_str [] a = []"
| "format_str [c] a = [of_char c]"
| "format_str (c # d # r) a =
     (if c = CHR ''{'' \<and> d = CHR ''}'' then a @ ascii r else of_char c # format_str (d # r) a)"

text \<open>
  The state outside the heap: the world the collaborators act on, the calls of the
  token-endpoint helper so far, and what standard output has taken.
\<close>

record ('r, 'w) io =
  world :: 'w
  sent :: "'r call list"
  stdout :: "printed list"

definition send ::
  "('r, 'w) env \<Rightarrow> 'r call \<Rightarrow> ('r, 'w) io \<Rightarrow> (exn + pyval) \<times> ('r, 'w) io"
where
  "send cl k s =
     (case token_endpoint_request cl k (world s) of
        (res, w) \<Rightarrow> (res, s\<lparr>world := w, sent := sent s @ [k]\<rparr>))"

text \<open>A \<^verbatim>\<open>print\<close> that raises has written nothing.\<close>

definition print ::
  "('r, 'w) env \<Rightarrow> string \<Rightarrow> pyval \<Rightarrow> ('r, 'w) io \<Rightarrow> (exn + unit) \<times> ('r, 'w) io"
where
  "print cl template v s =
     (case stdout_write cl (Print template v) (world s) of
        (Inl e, w) \<Rightarrow> (Inl e, s\<lparr>world := w\<rparr>)
      | (Inr u, w) \<Rightarrow> (Inr (), s\<lparr>world := w, stdout := stdout s @ [Print template v]\<rparr>))"

text \<open>
  \<^verbatim>\<open>v[k]\<close> for a string key: only a \<open>dict\<close> can be read that way, and a missing
  key raises \<open>KeyError\<close>.
\<close>

definition getitem :: "pyval \<Rightarrow> pystr \<Rightarrow> exn + pyval" where
  "getitem v k =
     (case v of
        PDict kvs \<Rightarrow> (case map_of kvs k of None \<Rightarrow> Inl (KeyError k) | Some x \<Rightarrow> Inr x)
      | _ \<Rightarrow> Inl TypeError)"

section \<open>The two-step token exchange\<close>

definition TOKEN_EXCHANGE_TYPE :: pystr where
  "TOKEN_EXCHANGE_TYPE = ascii ''urn:ietf:params:oauth:token-type:token-exchange''"

definition ACCESS_TOKEN_TOKEN_TYPE :: pystr where
  "ACCESS_TOKEN_TOKEN_TYPE = ascii ''urn:ietf:params:oauth:token-type:access_token''"

definition JWT_TOKEN_TYPE :: pystr where
  "JWT_TOKEN_TYPE = ascii ''urn:ietf:params:oauth:token-type:jwt''"

definition SERVICE_ACCOUNT_TOKEN_TYPE :: pystr where
  "SERVICE_ACCOUNT_TOKEN_TYPE = ascii ''urn:k8s:params:oauth:token-type:serviceaccount''"

text \<open>\<^verbatim>\<open>http_client.CREATED\<close>\<close>

definition CREATED :: nat where
  "CREATED = 201"

subsection \<open>Step 1: the k8s token\<close>

definition k8s_call :: "credentials \<Rightarrow> 'r \<Rightarrow> 'r call" where
  "k8s_call c r =
     \<lparr>request = r, url = k8s_token_endpoint c, body = [], fourth = PNone, fifth = True,
      cert = Some (k8s_cert_path c, k8s_key_path c), verify = k8s_ca_cert_path c,
      expected_status = Some CREATED\<rparr>"

text \<open>\<^verbatim>\<open>k8s_response_data["status"]["token"]\<close>\<close>

definition status_token :: "pyval \<Rightarrow> exn + pyval" where
  "status_token k8s_response_data =
     (case getitem k8s_response_data (ascii ''status'') of
        Inl e \<Rightarrow> Inl e
      | Inr st \<Rightarrow> getitem st (ascii ''token''))"

text \<open>The body of the \<^verbatim>\<open>try\<close> block: the lookup, the \<^verbatim>\<open>print\<close>, the \<^verbatim>\<open>return\<close>.\<close>

definition read_k8s_token ::
  "('r, 'w) env \<Rightarrow> pyval \<Rightarrow> ('r, 'w) io \<Rightarrow> (exn + pyval) \<times> ('r, 'w) io"
where
  "read_k8s_token cl k8s_response_data s =
     (case status_token k8s_response_data of
        Inl e \<Rightarrow> (Inl e, s)
      | Inr k8s_token \<Rightarrow>
          (case print cl ''received k8s token: {}'' k8s_token s of
             (Inl e, s1) \<Rightarrow> (Inl e, s1)
           | (Inr u, s1) \<Rightarrow> (Inr k8s_token, s1)))"

text \<open>
  The \<^verbatim>\<open>except\<close> clause: a \<open>KeyError\<close> becomes a \<open>RefreshError\<close> raised from it, with
  the response as payload; any other exception passes through.
\<close>

definition except_KeyError :: "pyval \<Rightarrow> exn \<Rightarrow> exn" where
  "except_KeyError k8s_response_data caught_exc =
     (case caught_exc of
        KeyError k \<Rightarrow>
          RefreshError (ascii ''No access token in k8s token response.'')
            k8s_response_data (Some (KeyError k))
      | _ \<Rightarrow> caught_exc)"

definition make_k8s_token_request ::
  "('r, 'w) env \<Rightarrow> credentials \<Rightarrow> 'r \<Rightarrow> ('r, 'w) io \<Rightarrow> (exn + pyval) \<times> ('r, 'w) io"
where
  "make_k8s_token_request cl c r s =
     (case send cl (k8s_call c r) s of
        (Inl e, s1) \<Rightarrow> (Inl e, s1)
      | (Inr k8s_response_data, s1) \<Rightarrow>
          (case read_k8s_token cl k8s_response_data s1 of
             (Inl e, s2) \<Rightarrow> (Inl (except_KeyError k8s_response_data e), s2)
           | (Inr k8s_token, s2) \<Rightarrow> (Inr k8s_token, s2)))"

subsection \<open>Step 2: the exchange for an AIS token\<close>

text \<open>
  \<^verbatim>\<open>base64.b64encode(k8s_token.encode()).decode()\<close>: only a \<open>str\<close> has the method
  \<open>encode\<close>.
\<close>

definition encode_k8s_token :: "pyval \<Rightarrow> exn + pystr" where
  "encode_k8s_token k8s_token =
     (case k8s_token of
        PStr t \<Rightarrow>
          (case str_encode t of
             Inl e \<Rightarrow> Inl e
           | Inr bs \<Rightarrow> bytes_decode (b64encode bs))
      | _ \<Rightarrow> Inl AttributeError)"

definition ais_request_body :: "credentials \<Rightarrow> pystr \<Rightarrow> (pystr \<times> pyval) list" where
  "ais_request_body c k8s_token =
     [(ascii ''grant_type'', PStr TOKEN_EXCHANGE_TYPE),
      (ascii ''audience'', PStr (audience c)),
      (ascii ''requested_token_type'', PStr ACCESS_TOKEN_TOKEN_TYPE),
      (ascii ''subject_token'', PStr k8s_token),
      (ascii ''subject_token_type'', PStr SERVICE_ACCOUNT_TOKEN_TYPE)]"

definition ais_call :: "credentials \<Rightarrow> 'r \<Rightarrow> (pystr \<times> pyval) list \<Rightarrow> 'r call" where
  "ais_call c r b =
     \<lparr>request = r, url = ais_token_endpoint c, body = b, fourth = PNone, fifth = True,
      cert = None, verify = ais_ca_cert_path c, expected_status = None\<rparr>"

definition make_ais_token_request ::
  "('r, 'w) env \<Rightarrow> credentials \<Rightarrow> pyval \<Rightarrow> 'r \<Rightarrow> ('r, 'w) io
     \<Rightarrow> (exn + pyval \<times> datetime option) \<times> ('r, 'w) io"
where
  "make_ais_token_request cl c k8s_token r s =
     (case encode_k8s_token k8s_token of
        Inl e \<Rightarrow> (Inl e, s)
      | Inr encoded \<Rightarrow>
          (case send cl (ais_call c r (ais_request_body c encoded)) s of
             (Inl e, s1) \<Rightarrow> (Inl e, s1)
           | (Inr ais_response_data, s1) \<Rightarrow>
               (case handle_refresh_grant_response cl ais_response_data PNone (world s1) of
                  (Inl e, w) \<Rightarrow> (Inl e, s1\<lparr>world := w\<rparr>)
                | (Inr (ais_token, _, ais_expiry, _), w) \<Rightarrow>
                    (case print cl ''received ais token: {}'' ais_token (s1\<lparr>world := w\<rparr>) of
                       (Inl e, s2) \<Rightarrow> (Inl e, s2)
                     | (Inr u, s2) \<Rightarrow> (Inr (ais_token, ais_expiry), s2)))))"

subsection \<open>\<^verbatim>\<open>refresh\<close>\<close>

text \<open>
  The assignment to \<open>self.token\<close> and \<open>self.expiry\<close> is the last thing done, after both
  methods have returned.
\<close>

definition refresh ::
  "('r, 'w) env \<Rightarrow> 'r \<Rightarrow> ref \<Rightarrow> heap \<Rightarrow> ('r, 'w) io \<Rightarrow> (exn + unit) \<times> heap \<times> ('r, 'w) io"
where
  "refresh cl r self h s =
     (let c = h ! self in
      case make_k8s_token_request cl c r s of
        (Inl e, s1) \<Rightarrow> (Inl e, h, s1)
      | (Inr k8s_token, s1) \<Rightarrow>
          (case make_ais_token_request cl c k8s_token r s1 of
             (Inl e, s2) \<Rightarrow> (Inl e, h, s2)
           | (Inr (t, x), s2) \<Rightarrow> (Inr (), h[self := c\<lparr>token := t, expiry := x\<rparr>], s2)))"

section \<open>A scripted run\<close>

text \<open>
  A credential, and stand-ins for what is outside: the world is the list of the answers
  the endpoints will give, one per request; the response handler reads \<open>access_token\<close>
  and reports a fixed expiry; standard output is a UTF-8 stream, which takes every
  \<open>str\<close> that has a UTF-8 form.
\<close>

definition utf8_stdout :: "printed \<Rightarrow> 'w \<Rightarrow> (exn + unit) \<times> 'w" where
  "utf8_stdout p w =
     (case p of
        Print template (PStr t) \<Rightarrow>
          (case str_encode t of Inl e \<Rightarrow> (Inl e, w) | Inr bs \<Rightarrow> (Inr (), w))
      | _ \<Rightarrow> (Inr (), w))"

definition example_credentials :: credentials where
  "example_credentials =
     init (ascii ''/k8s/ca.crt'') (ascii ''/k8s/tls.crt'') (ascii ''/k8s/tls.key'')
       (ascii ''https://k8s.local/token'') (ascii ''/ais/ca.crt'')
       (ascii ''https://ais.local/sts'') (ascii ''https://service.local'') None"

definition scripted :: "(unit, (exn + pyval) list) env" where
  "scripted =
     \<lparr>token_endpoint_request =
        (\<lambda>k w. case w of
           [] \<Rightarrow> (Inl (OtherException (ascii ''TransportError'')), [])
         | x # xs \<Rightarrow> (x, xs)),
      handle_refresh_grant_response =
        (\<lambda>d rt w. case getitem d (ascii ''access_token'') of
           Inl e \<Rightarrow> (Inl (RefreshError (ascii ''No access token in response.'') d (Some e)), w)
         | Inr a \<Rightarrow> (Inr (a, rt, Some 3600, d), w)),
      stdout_write = utf8_stdout\<rparr>"

definition k8s_response_ok :: pyval where
  "k8s_response_ok = PDict [(ascii ''status'', PDict [(ascii ''token'', PStr (ascii ''boot-abc''))])]"

definition k8s_response_no_token :: pyval where
  "k8s_response_no_token = PDict [(ascii ''status'', PDict [])]"

definition ais_response_ok :: pyval where
  "ais_response_ok =
     PDict [(ascii ''access_token'', PStr (ascii ''final-xyz'')),
            (ascii ''expires_in'', PInt 3600),
            (ascii ''token_type'', PStr (ascii ''Bearer''))]"

text \<open>\<^verbatim>\<open>{"access_token": "\ud800", "expires_in": 3600}\<close>: a token that is a lone surrogate.\<close>

definition ais_response_surrogate :: pyval where
  "ais_response_surrogate =
     PDict [(ascii ''access_token'', PStr [0xD800]), (ascii ''expires_in'', PInt 3600)]"

definition ais_failure :: exn where
  "ais_failure = RefreshError (ascii ''invalid_grant'') (PDict []) None"

definition start :: "(exn + pyval) list \<Rightarrow> (unit, (exn + pyval) list) io" where
  "start answers = \<lparr>world = answers, sent = [], stdout = []\<rparr>"

text \<open>The same credential after a successful refresh.\<close>

definition refreshed_credentials :: credentials where
  "refreshed_credentials =
     example_credentials\<lparr>token := PStr (ascii ''final-xyz''), expiry := Some 3600\<rparr>"

section \<open>The codecs are inverse to each other\<close>

subsection \<open>Base64\<close>

lemma index_from_nth: "distinct xs \<Longrightarrow> n < length xs \<Longrightarrow> index_from i (xs ! n) xs = Some (i + n)"
proof (induction xs arbitrary: i n)
  case Nil
  then show ?case by simp
next
  case (Cons y ys)
  show ?case
  proof (cases n)
    case 0
    then show ?thesis by simp
  next
    case (Suc m)
    with Cons.prems have "ys ! m \<noteq> y" by auto
    with Suc Cons show ?thesis by simp
  qed
qed

lemma length_b64_alphabet: "length b64_alphabet = 64"
  by (simp add: b64_alphabet_def)

lemma distinct_b64_alphabet: "distinct b64_alphabet"
  by code_simp

lemma pad_not_in_alphabet: "CHR ''='' \<notin> set b64_alphabet"
  by code_simp

lemma b64_index_char: "n < 64 \<Longrightarrow> b64_index (b64_char n) = Some n"
  using index_from_nth [OF distinct_b64_alphabet, of n 0]
  by (simp add: b64_index_def b64_char_def length_b64_alphabet)

lemma b64_char_not_pad: "n < 64 \<Longrightarrow> b64_char n \<noteq> CHR ''=''"
proof -
  assume "n < 64"
  then have "b64_char n \<in> set b64_alphabet"
    by (simp add: b64_char_def length_b64_alphabet)
  with pad_not_in_alphabet show ?thesis by auto
qed

lemma sextets:
  fixes x y z :: nat
  assumes "x < 256" "y < 256" "z < 256"
  shows "x div 4 < 64" "x mod 4 * 16 < 64" "x mod 4 * 16 + y div 16 < 64"
    "y mod 16 * 4 < 64" "y mod 16 * 4 + z div 64 < 64" "z mod 64 < 64"
  using assms by simp_all

lemma regroup_first:
  fixes x y :: nat
  assumes "y < 256"
  shows "x div 4 * 4 + x mod 4 * 16 div 16 = x"
    and "x div 4 * 4 + (x mod 4 * 16 + y div 16) div 16 = x"
  using assms by simp_all

lemma regroup_second:
  fixes x y z :: nat
  assumes "y < 256" "z < 256"
  shows "(x mod 4 * 16 + y div 16) mod 16 * 16 + y mod 16 * 4 div 4 = y"
    and "(x mod 4 * 16 + y div 16) mod 16 * 16 + (y mod 16 * 4 + z div 64) div 4 = y"
proof -
  have "y div 16 < 16" using assms by simp
  then have l: "(x mod 4 * 16 + y div 16) mod 16 = y div 16"
    by (simp add: mod_mult_self3 [of "x mod 4" 16 "y div 16"] add.commute)
  have "z div 64 < 4" using assms by simp
  then have r: "(y mod 16 * 4 + z div 64) div 4 = y mod 16"
    by simp
  show "(x mod 4 * 16 + y div 16) mod 16 * 16 + y mod 16 * 4 div 4 = y"
    using l by simp
  show "(x mod 4 * 16 + y div 16) mod 16 * 16 + (y mod 16 * 4 + z div 64) div 4 = y"
    using l r by simp
qed

lemma regroup_third:
  fixes y z :: nat
  assumes "z < 256"
  shows "(y mod 16 * 4 + z div 64) mod 4 * 64 + z mod 64 = z"
proof -
  have "z div 64 < 4" using assms by simp
  then have "(y mod 16 * 4 + z div 64) mod 4 = z div 64"
    by (simp add: add.commute)
  then show ?thesis by simp
qed

lemma b64decode_one:
  fixes x :: nat
  assumes "x < 256"
  shows "b64decode [b64_char (x div 4), b64_char (x mod 4 * 16), CHR ''='', CHR ''='']
         = Inr [char_of x]"
proof -
  note s = sextets(1,2) [OF assms assms assms]
  note i = s [THEN b64_index_char]
  show ?thesis
    by (simp only: b64decode.simps i prod.case option.case simp_thms if_True
        regroup_first(1) [OF assms])
qed

lemma b64decode_two:
  fixes x y :: nat
  assumes "x < 256" "y < 256"
  shows "b64decode [b64_char (x div 4), b64_char (x mod 4 * 16 + y div 16),
                    b64_char (y mod 16 * 4), CHR ''='']
         = Inr [char_of x, char_of y]"
proof -
  note s = sextets(1,3,4) [OF assms assms(2)]
  note i = s [THEN b64_index_char]
  note n = s [THEN b64_char_not_pad]
  show ?thesis
    by (simp only: b64decode.simps i n prod.case option.case simp_thms if_True if_False
        regroup_first(2) [OF assms(2)] regroup_second(1) [OF assms(2) assms(2)])
qed

lemma b64decode_three:
  fixes x y z :: nat
  assumes "x < 256" "y < 256" "z < 256"
  shows "b64decode (b64_char (x div 4) # b64_char (x mod 4 * 16 + y div 16)
                    # b64_char (y mod 16 * 4 + z div 64) # b64_char (z mod 64) # r)
         = (case b64decode r of Inl e \<Rightarrow> Inl e
            | Inr bs \<Rightarrow> Inr (char_of x # char_of y # char_of z # bs))"
proof -
  note s = sextets(1,3,5,6) [OF assms]
  note i = s [THEN b64_index_char]
  note n = s [THEN b64_char_not_pad]
  show ?thesis
    by (simp only: b64decode.simps i n prod.case option.case simp_thms if_True if_False
        regroup_first(2) [OF assms(2)] regroup_second(2) [OF assms(2,3)]
        regroup_third [OF assms(3)])
qed

lemma b64decode_b64encode: "b64decode (b64encode bs) = Inr bs"
proof (induction bs rule: b64encode.induct)
  case 1
  show ?case by simp
next
  case (2 a)
  show ?case
    by (simp only: b64encode.simps Let_def b64decode_one [OF nat_of_char_less_256]
        char_of_char)
next
  case (3 a b)
  show ?case
    by (simp only: b64encode.simps Let_def
        b64decode_two [OF nat_of_char_less_256 nat_of_char_less_256] char_of_char)
next
  case (4 a b c r)
  show ?case
    by (simp only: b64encode.simps Let_def append.simps 4 sum.case
        b64decode_three [OF nat_of_char_less_256 nat_of_char_less_256 nat_of_char_less_256]
        char_of_char)
qed

subsection \<open>UTF-8\<close>

lemma cont_byte:
  fixes k :: nat
  assumes "k < 64"
  shows "is_continuation (char_of (0x80 + k))" and "payload (char_of (0x80 + k)) = k"
proof -
  have v: "(of_char (char_of (0x80 + k)) :: nat) = 0x80 + k"
    using assms by simp
  show "is_continuation (char_of (0x80 + k))"
    unfolding is_continuation_def v using assms by simp
  have "(0x80 + k) mod 64 = (k + 2 * 64) mod 64" by (simp add: add.commute)
  also have "\<dots> = k mod 64" by (simp only: mod_mult_self1)
  finally have "(0x80 + k) mod 64 = k" using assms by simp
  then show "payload (char_of (0x80 + k)) = k"
    unfolding payload_def v .
qed

lemma split64:
  fixes n m :: nat
  shows "n div 64 * (64 * m) + n mod 64 * m = n * m"
proof -
  have "(n div 64 * 64 + n mod 64) * m = n * m" by (simp only: div_mult_mod_eq)
  then show ?thesis by (simp only: add_mult_distrib mult.assoc)
qed

lemma decode_one:
  assumes "cp < 0x80"
  shows "bytes_decode (char_of cp # rest) = decoded cp (bytes_decode rest)"
proof -
  have "(of_char (char_of cp) :: nat) = cp" using assms by simp
  then show ?thesis using assms by (simp add: Let_def)
qed

lemma decode_two:
  assumes "0x80 \<le> cp" "cp < 0x800"
  shows "bytes_decode (char_of (0xC0 + cp div 64) # char_of (0x80 + cp mod 64) # rest)
         = decoded cp (bytes_decode rest)"
proof -
  have d: "2 \<le> cp div 64" "cp div 64 < 32" using assms by simp_all
  have b0: "(of_char (char_of (0xC0 + cp div 64)) :: nat) = 0xC0 + cp div 64"
    using d by simp
  have m: "cp mod 64 < 64" by simp
  note c1 = cont_byte [OF m]
  have v: "cp div 64 * 64 + cp mod 64 = cp" by simp
  show ?thesis
    using d by (simp add: b0 c1 v Let_def)
qed

lemma decode_three:
  assumes "0x800 \<le> cp" "cp < 0x10000" "\<not> is_surrogate cp"
  shows "bytes_decode (char_of (0xE0 + cp div 4096) # char_of (0x80 + cp div 64 mod 64)
                       # char_of (0x80 + cp mod 64) # rest)
         = decoded cp (bytes_decode rest)"
proof -
  have d: "cp div 4096 < 16" using assms by simp
  have b0: "(of_char (char_of (0xE0 + cp div 4096)) :: nat) = 0xE0 + cp div 4096"
    using d by simp
  have m1: "cp div 64 mod 64 < 64" and m2: "cp mod 64 < 64" by simp_all
  note c1 = cont_byte [OF m1]
  note c2 = cont_byte [OF m2]
  have e: "cp div 4096 = cp div 64 div 64" by (simp add: div_mult2_eq)
  have "cp div 4096 * 4096 + cp div 64 mod 64 * 64 = cp div 64 * 64"
    using split64 [of "cp div 64" 64] unfolding e by simp
  then have v: "cp div 4096 * 4096 + cp div 64 mod 64 * 64 + cp mod 64 = cp" by simp
  show ?thesis
    using d assms by (simp add: b0 c1 c2 v Let_def)
qed

lemma decode_four:
  assumes "0x10000 \<le> cp" "cp < 0x110000"
  shows "bytes_decode (char_of (0xF0 + cp div 262144) # char_of (0x80 + cp div 4096 mod 64)
                       # char_of (0x80 + cp div 64 mod 64) # char_of (0x80 + cp mod 64) # rest)
         = decoded cp (bytes_decode rest)"
proof -
  have d: "cp div 262144 < 5" using assms by simp
  have b0: "(of_char (char_of (0xF0 + cp div 262144)) :: nat) = 0xF0 + cp div 262144"
    using d by simp
  have m1: "cp div 4096 mod 64 < 64" and m2: "cp div 64 mod 64 < 64" and m3: "cp mod 64 < 64"
    by simp_all
  note c1 = cont_byte [OF m1]
  note c2 = cont_byte [OF m2]
  note c3 = cont_byte [OF m3]
  have e1: "cp div 262144 = cp div 4096 div 64" by (simp add: div_mult2_eq)
  have e2: "cp div 4096 = cp div 64 div 64" by (simp add: div_mult2_eq)
  have "cp div 262144 * 262144 + cp div 4096 mod 64 * 4096 = cp div 4096 * 4096"
    using split64 [of "cp div 4096" 4096] unfolding e1 by simp
  moreover have "cp div 4096 * 4096 + cp div 64 mod 64 * 64 = cp div 64 * 64"
    using split64 [of "cp div 64" 64] unfolding e2 by simp
  ultimately have v: "cp div 262144 * 262144 + cp div 4096 mod 64 * 4096
      + cp div 64 mod 64 * 64 + cp mod 64 = cp" by simp
  show ?thesis
    using d assms by (simp add: b0 c1 c2 c3 v Let_def)
qed

lemma decode_encoded_cp:
  assumes "utf8_encode_cp cp = Inr bs"
  shows "bytes_decode (bs @ rest) = decoded cp (bytes_decode rest)"
proof -
  consider "cp < 0x80" | "0x80 \<le> cp" "cp < 0x800"
    | "0x800 \<le> cp" "cp < 0x10000" | "0x10000 \<le> cp" "cp < 0x110000" | "0x110000 \<le> cp"
    by linarith
  then show ?thesis
  proof cases
    case 1
    with assms have "bs = [char_of cp]" by (simp add: utf8_encode_cp_def)
    then show ?thesis using decode_one [OF 1, of rest] by (simp only: append.simps)
  next
    case 2
    with assms have "bs = [char_of (0xC0 + cp div 64), char_of (0x80 + cp mod 64)]"
      by (simp add: utf8_encode_cp_def)
    then show ?thesis using decode_two [OF 2, of rest] by (simp only: append.simps)
  next
    case 3
    with assms have s: "\<not> is_surrogate cp"
      by (auto simp add: utf8_encode_cp_def)
    with 3 assms have "bs = [char_of (0xE0 + cp div 4096), char_of (0x80 + cp div 64 mod 64),
             char_of (0x80 + cp mod 64)]"
      by (simp add: utf8_encode_cp_def)
    then show ?thesis using decode_three [OF 3 s, of rest] by (simp only: append.simps)
  next
    case 4
    then have s: "\<not> is_surrogate cp" by (simp add: is_surrogate_def)
    with 4 assms have "bs = [char_of (0xF0 + cp div 262144), char_of (0x80 + cp div 4096 mod 64),
             char_of (0x80 + cp div 64 mod 64), char_of (0x80 + cp mod 64)]"
      by (simp add: utf8_encode_cp_def)
    then show ?thesis using decode_four [OF 4, of rest] by (simp only: append.simps)
  next
    case 5
    then have "\<not> is_surrogate cp \<Longrightarrow> utf8_encode_cp cp = Inl UnicodeEncodeError"
      by (simp add: utf8_encode_cp_def)
    moreover have "is_surrogate cp \<Longrightarrow> utf8_encode_cp cp = Inl UnicodeEncodeError"
      using 5 by (simp add: utf8_encode_cp_def)
    ultimately show ?thesis using assms by auto
  qed
qed

lemma bytes_decode_str_encode:
  "str_encode s = Inr bs \<Longrightarrow> bytes_decode bs = Inr s"
proof (induction s arbitrary: bs)
  case Nil
  then show ?case by simp
next
  case (Cons cp s)
  from Cons.prems obtain b r where b: "utf8_encode_cp cp = Inr b"
    and r: "str_encode s = Inr r" and bs: "bs = b @ r"
    by (auto split: sum.splits)
  from Cons.IH [OF r] have "bytes_decode r = Inr s" .
  then show ?case
    unfolding bs by (simp only: decode_encoded_cp [OF b] decoded_def sum.case)
qed

subsection \<open>Base64 text is ASCII\<close>

lemma b64_alphabet_ascii: "list_all (\<lambda>c. (of_char c :: nat) < 0x80) b64_alphabet"
  by code_simp

lemma b64_char_ascii: "n < 64 \<Longrightarrow> (of_char (b64_char n) :: nat) < 0x80"
  using b64_alphabet_ascii
  by (simp add: b64_char_def list_all_length length_b64_alphabet)

lemma pad_ascii: "(of_char CHR ''='' :: nat) < 0x80"
  by simp

lemma sextets_of_char:
  fixes a b c :: char
  shows "(of_char a :: nat) div 4 < 64"
    and "(of_char a :: nat) mod 4 * 16 < 64"
    and "(of_char a :: nat) mod 4 * 16 + (of_char b :: nat) div 16 < 64"
    and "(of_char b :: nat) mod 16 * 4 < 64"
    and "(of_char b :: nat) mod 16 * 4 + (of_char c :: nat) div 64 < 64"
    and "(of_char c :: nat) mod 64 < 64"
  by (rule sextets [OF nat_of_char_less_256 nat_of_char_less_256 nat_of_char_less_256])+

lemma b64encode_ascii: "list_all (\<lambda>c. (of_char c :: nat) < 0x80) (b64encode bs)"
proof (induction bs rule: b64encode.induct)
  case 1
  show ?case by simp
next
  case (2 a)
  show ?case
    by (simp only: b64encode.simps Let_def list.pred_inject
        sextets_of_char [THEN b64_char_ascii] pad_ascii simp_thms)
next
  case (3 a b)
  show ?case
    by (simp only: b64encode.simps Let_def list.pred_inject
        sextets_of_char [THEN b64_char_ascii] pad_ascii simp_thms)
next
  case (4 a b c r)
  show ?case
    using 4
    by (simp only: b64encode.simps Let_def append.simps list.pred_inject
        sextets_of_char [THEN b64_char_ascii] simp_thms)
qed

lemma bytes_decode_ascii:
  "list_all (\<lambda>c. (of_char c :: nat) < 0x80) cs \<Longrightarrow> bytes_decode cs = Inr (map of_char cs)"
  by (induction cs) (simp_all add: Let_def decoded_def)

lemma ascii_encode_ascii:
  "list_all (\<lambda>c. (of_char c :: nat) < 0x80) cs \<Longrightarrow> ascii_encode (map of_char cs) = Inr cs"
  by (induction cs) simp_all

lemma encode_k8s_token_str:
  "str_encode t = Inr bs \<Longrightarrow> encode_k8s_token (PStr t) = Inr (map of_char (b64encode bs))"
  by (simp add: encode_k8s_token_def bytes_decode_ascii [OF b64encode_ascii])

lemma b64decode_str_encoded:
  assumes "str_encode t = Inr bs"
  shows "b64decode_str (map of_char (b64encode bs)) = Inr t"
  by (simp add: b64decode_str_def ascii_encode_ascii [OF b64encode_ascii]
      b64decode_b64encode bytes_decode_str_encode [OF assms])

subsection \<open>What each step does to the state\<close>

lemma send_eq:
  "token_endpoint_request cl k (world s) = (res, w)
   \<Longrightarrow> send cl k s = (res, s\<lparr>world := w, sent := sent s @ [k]\<rparr>)"
  by (simp add: send_def)

lemma k8s_transport_error:
  "token_endpoint_request cl (k8s_call c r) (world s) = (Inl x, w)
   \<Longrightarrow> make_k8s_token_request cl c r s
       = (Inl x, s\<lparr>world := w, sent := sent s @ [k8s_call c r]\<rparr>)"
  by (simp add: make_k8s_token_request_def send_eq)

lemma k8s_lookup_error:
  "token_endpoint_request cl (k8s_call c r) (world s) = (Inr d, w)
   \<Longrightarrow> status_token d = Inl x
   \<Longrightarrow> make_k8s_token_request cl c r s
       = (Inl (except_KeyError d x), s\<lparr>world := w, sent := sent s @ [k8s_call c r]\<rparr>)"
  by (simp add: make_k8s_token_request_def send_eq read_k8s_token_def)

lemma k8s_token_missing:
  "token_endpoint_request cl (k8s_call c r) (world s) = (Inr d, w)
   \<Longrightarrow> status_token d = Inl (KeyError k)
   \<Longrightarrow> make_k8s_token_request cl c r s
       = (Inl (RefreshError (ascii ''No access token in k8s token response.'') d
                 (Some (KeyError k))),
          s\<lparr>world := w, sent := sent s @ [k8s_call c r]\<rparr>)"
  by (simp add: k8s_lookup_error except_KeyError_def)

lemma k8s_print_error:
  "token_endpoint_request cl (k8s_call c r) (world s) = (Inr d, w)
   \<Longrightarrow> status_token d = Inr t
   \<Longrightarrow> stdout_write cl (Print ''received k8s token: {}'' t) w = (Inl x, w')
   \<Longrightarrow> make_k8s_token_request cl c r s
       = (Inl (except_KeyError d x), s\<lparr>world := w', sent := sent s @ [k8s_call c r]\<rparr>)"
  by (simp add: make_k8s_token_request_def send_eq read_k8s_token_def print_def)

lemma k8s_token_found:
  "token_endpoint_request cl (k8s_call c r) (world s) = (Inr d, w)
   \<Longrightarrow> status_token d = Inr t
   \<Longrightarrow> stdout_write cl (Print ''received k8s token: {}'' t) w = (Inr u, w')
   \<Longrightarrow> make_k8s_token_request cl c r s
       = (Inr t, \<lparr>world = w', sent = sent s @ [k8s_call c r],
                  stdout = stdout s @ [Print ''received k8s token: {}'' t]\<rparr>)"
  by (simp add: make_k8s_token_request_def send_eq read_k8s_token_def print_def)

lemma k8s_sent:
  "sent (snd (make_k8s_token_request cl c r s)) = sent s @ [k8s_call c r]"
  by (simp add: make_k8s_token_request_def send_def read_k8s_token_def print_def
      split: prod.splits sum.splits)

lemma k8s_returned:
  assumes "make_k8s_token_request cl c r s = (Inr t, s1)"
    and "token_endpoint_request cl (k8s_call c r) (world s) = (res, w)"
  shows "(case res of Inl x \<Rightarrow> False | Inr d \<Rightarrow> status_token d = Inr t)
    \<and> stdout s1 = stdout s @ [Print ''received k8s token: {}'' t]"
  using assms
  by (auto simp add: make_k8s_token_request_def send_def read_k8s_token_def print_def
      split: prod.splits sum.splits)

lemma ais_not_encodable:
  "encode_k8s_token t = Inl x \<Longrightarrow> make_ais_token_request cl c t r s = (Inl x, s)"
  by (simp add: make_ais_token_request_def)

lemma ais_transport_error:
  "encode_k8s_token t = Inr subject
   \<Longrightarrow> token_endpoint_request cl (ais_call c r (ais_request_body c subject)) (world s) = (Inl x, w)
   \<Longrightarrow> make_ais_token_request cl c t r s
       = (Inl x, s\<lparr>world := w, sent := sent s @ [ais_call c r (ais_request_body c subject)]\<rparr>)"
  by (simp add: make_ais_token_request_def send_eq)

lemma ais_handler_error:
  "encode_k8s_token t = Inr subject
   \<Longrightarrow> token_endpoint_request cl (ais_call c r (ais_request_body c subject)) (world s) = (Inr d, w)
   \<Longrightarrow> handle_refresh_grant_response cl d PNone w = (Inl x, w')
   \<Longrightarrow> make_ais_token_request cl c t r s
       = (Inl x, s\<lparr>world := w', sent := sent s @ [ais_call c r (ais_request_body c subject)]\<rparr>)"
  by (simp add: make_ais_token_request_def send_eq)

lemma ais_print_error:
  "encode_k8s_token t = Inr subject
   \<Longrightarrow> token_endpoint_request cl (ais_call c r (ais_request_body c subject)) (world s) = (Inr d, w)
   \<Longrightarrow> handle_refresh_grant_response cl d PNone w = (Inr (at, rt, ex, extra), w')
   \<Longrightarrow> stdout_write cl (Print ''received ais token: {}'' at) w' = (Inl x, w'')
   \<Longrightarrow> make_ais_token_request cl c t r s
       = (Inl x, s\<lparr>world := w'', sent := sent s @ [ais_call c r (ais_request_body c subject)]\<rparr>)"
  by (simp add: make_ais_token_request_def send_eq print_def)

lemma ais_token_parsed:
  "encode_k8s_token t = Inr subject
   \<Longrightarrow> token_endpoint_request cl (ais_call c r (ais_request_body c subject)) (world s) = (Inr d, w)
   \<Longrightarrow> handle_refresh_grant_response cl d PNone w = (Inr (at, rt, ex, extra), w')
   \<Longrightarrow> stdout_write cl (Print ''received ais token: {}'' at) w' = (Inr u, w'')
   \<Longrightarrow> make_ais_token_request cl c t r s
       = (Inr (at, ex),
          \<lparr>world = w'', sent = sent s @ [ais_call c r (ais_request_body c subject)],
           stdout = stdout s @ [Print ''received ais token: {}'' at]\<rparr>)"
  by (simp add: make_ais_token_request_def send_eq print_def)

lemma ais_sent_prefix:
  "prefix (sent s) (sent (snd (make_ais_token_request cl c t r s)))"
  by (simp add: make_ais_token_request_def send_def print_def
      split: prod.splits sum.splits)

lemma ais_sent:
  "encode_k8s_token t = Inr subject
   \<Longrightarrow> sent (snd (make_ais_token_request cl c t r s))
       = sent s @ [ais_call c r (ais_request_body c subject)]"
  by (simp add: make_ais_token_request_def send_def print_def
      split: prod.splits sum.splits)

lemma ais_success_stdout:
  "make_ais_token_request cl c t r s = (Inr (at, ex), s')
   \<Longrightarrow> stdout s' = stdout s @ [Print ''received ais token: {}'' at]"
  by (auto simp add: make_ais_token_request_def send_def print_def
      split: prod.splits sum.splits)

lemma refresh_state:
  "make_k8s_token_request cl (h ! self) r s = (Inr t, s1)
   \<Longrightarrow> snd (snd (refresh cl r self h s))
       = snd (make_ais_token_request cl (h ! self) t r s1)"
  by (cases "make_ais_token_request cl (h ! self) t r s1")
    (auto simp add: refresh_def Let_def split: sum.splits)

lemma refresh_requests:
  assumes "make_k8s_token_request cl (h ! self) r s = (Inr (PStr t), s1)"
    and "str_encode t = Inr bs"
  shows "sent (snd (snd (refresh cl r self h s)))
    = sent s @ [k8s_call (h ! self) r,
                ais_call (h ! self) r (ais_request_body (h ! self) (map of_char (b64encode bs)))]"
proof -
  have "sent s1 = sent s @ [k8s_call (h ! self) r]"
    using k8s_sent [of cl "h ! self" r s] assms(1) by simp
  then show ?thesis
    by (simp add: refresh_state [OF assms(1)] ais_sent [OF encode_k8s_token_str [OF assms(2)]])
qed

lemma format_str_k8s:
  "format_str ''received k8s token: {}'' x = ascii ''received k8s token: '' @ x"
  by (simp add: ascii_def)

lemma format_str_ais:
  "format_str ''received ais token: {}'' x = ascii ''received ais token: '' @ x"
  by (simp add: ascii_def)

subsection \<open>Facts about the scripted runs\<close>

lemma boot_abc_utf8: "str_encode (ascii ''boot-abc'') = Inr ''boot-abc''"
  by code_simp

lemma boot_abc_subject:
  "encode_k8s_token (PStr (ascii ''boot-abc'')) = Inr (ascii ''Ym9vdC1hYmM='')"
  by code_simp

lemma boot_abc_found: "status_token k8s_response_ok = Inr (PStr (ascii ''boot-abc''))"
  by code_simp

lemma surrogate_not_printed:
  "stdout_write scripted (Print template (PStr [0xD800])) w = (Inl UnicodeEncodeError, w)"
  by (simp add: scripted_def utf8_stdout_def utf8_encode_cp_def is_surrogate_def)

lemma surrogate_extracted:
  "handle_refresh_grant_response scripted ais_response_surrogate PNone w
   = (Inr (PStr [0xD800], PNone, Some 3600, ais_response_surrogate), w)"
  by (simp add: scripted_def getitem_def ais_response_surrogate_def ascii_def)

lemma surrogate_run:
  "refresh scripted () 0 [c] (start [Inr k8s_response_ok, Inr ais_response_surrogate])
   = (Inl UnicodeEncodeError, [c],
      \<lparr>world = [],
       sent = [k8s_call c (), ais_call c () (ais_request_body c (ascii ''Ym9vdC1hYmM=''))],
       stdout = [Print ''received k8s token: {}'' (PStr (ascii ''boot-abc''))]\<rparr>)"
proof -
  let ?s = "start [Inr k8s_response_ok, Inr ais_response_surrogate]"
  let ?s1 = "\<lparr>world = [Inr ais_response_surrogate], sent = [k8s_call c ()],
              stdout = [Print ''received k8s token: {}'' (PStr (ascii ''boot-abc''))]\<rparr>"
  let ?a = "ais_call c () (ais_request_body c (ascii ''Ym9vdC1hYmM=''))"
  have k: "token_endpoint_request scripted (k8s_call c ()) (world ?s)
           = (Inr k8s_response_ok, [Inr ais_response_surrogate])"
    by (simp add: scripted_def start_def)
  have p1: "stdout_write scripted (Print ''received k8s token: {}'' (PStr (ascii ''boot-abc'')))
              [Inr ais_response_surrogate] = (Inr (), [Inr ais_response_surrogate])"
    by (simp add: scripted_def utf8_stdout_def boot_abc_utf8)
  have one: "make_k8s_token_request scripted c () ?s = (Inr (PStr (ascii ''boot-abc'')), ?s1)"
    using k8s_token_found [OF k boot_abc_found p1] by (simp add: start_def)
  have a: "token_endpoint_request scripted ?a (world ?s1) = (Inr ais_response_surrogate, [])"
    by (simp add: scripted_def)
  have two: "make_ais_token_request scripted c (PStr (ascii ''boot-abc'')) () ?s1
             = (Inl UnicodeEncodeError,
                \<lparr>world = [], sent = [k8s_call c (), ?a],
                 stdout = [Print ''received k8s token: {}'' (PStr (ascii ''boot-abc''))]\<rparr>)"
    using ais_print_error [OF boot_abc_subject a surrogate_extracted surrogate_not_printed]
    by simp
  show ?thesis
    by (simp add: refresh_def one two)
qed

section \<open>Refresh\<close>




text \<open>
  C2 (amended). When the bootstrap response lacks \<open>status\<close> or \<open>status.token\<close>, so that
  the lookup raises \<open>KeyError\<close>, \<open>refresh\<close> raises a \<open>RefreshError\<close> whose message is
  \<^verbatim>\<open>No access token in k8s token response.\<close>, whose payload is the response as received
  and whose cause is that \<open>KeyError\<close>; the heap, and with it the credential's token and
  expiry, is as before, and the only request made is the bootstrap request.
\<close>

theorem refresh_no_bootstrap_token:
  assumes "live h self"
    and "token_endpoint_request cl (k8s_call (h ! self) r) (world s) = (Inr d, w1)"
    and "status_token d = Inl (KeyError k)"
  shows "refresh cl r self h s =
     (Inl (RefreshError (ascii ''No access token in k8s token response.'') d
             (Some (KeyError k))),
      h, s\<lparr>world := w1, sent := sent s @ [k8s_call (h ! self) r]\<rparr>)"
  by (simp add: refresh_def k8s_token_missing [OF assms(2,3)])

theorem refresh_no_bootstrap_token_witness:
  "refresh scripted () 0 [refreshed_credentials]
     (start [Inr k8s_response_no_token, Inr ais_response_ok])
   = (Inl (RefreshError (ascii ''No access token in k8s token response.'')
             k8s_response_no_token (Some (KeyError (ascii ''token'')))),
      [refreshed_credentials],
      \<lparr>world = [Inr ais_response_ok], sent = [k8s_call refreshed_credentials ()],
       stdout = []\<rparr>)"
proof -
  let ?h = "[refreshed_credentials]"
  let ?s = "start [Inr k8s_response_no_token, Inr ais_response_ok]"
  have l: "live ?h 0" by (simp add: live_def)
  have k: "token_endpoint_request scripted (k8s_call (?h ! 0) ()) (world ?s)
           = (Inr k8s_response_no_token, [Inr ais_response_ok])"
    by (simp add: scripted_def start_def)
  have t: "status_token k8s_response_no_token = Inl (KeyError (ascii ''token''))"
    by code_simp
  from refresh_no_bootstrap_token [OF l k t] show ?thesis by (simp add: start_def)
qed

text \<open>
  The message is not the one the specification quotes,
  \<^verbatim>\<open>no access token in bootstrap response\<close>: on the response \<^verbatim>\<open>{"status": {}}\<close> the
  error raised carries the text of the source.
\<close>

theorem refresh_error_message_counterexample:
  "status_token k8s_response_no_token = Inl (KeyError (ascii ''token''))
   \<and> fst (refresh scripted () 0 [example_credentials] (start [Inr k8s_response_no_token]))
     = Inl (RefreshError (ascii ''No access token in k8s token response.'')
              k8s_response_no_token (Some (KeyError (ascii ''token''))))
   \<and> ascii ''No access token in k8s token response.''
     \<noteq> ascii ''no access token in bootstrap response''"
  by code_simp

text \<open>
  C3. A failed \<open>refresh\<close> leaves the heap, and so the credential's token and expiry, as it
  was, and the error it raises is that of the first thing that failed. In step 1 that is
  the bootstrap request, the lookup of \<open>status.token\<close> or the \<^verbatim>\<open>print\<close> of the token
  (the last two inside the \<^verbatim>\<open>try\<close> block, so a \<open>KeyError\<close> comes out wrapped in a
  \<open>RefreshError\<close>); after any of these the bootstrap request is the only request made. In
  step 2 it is the encoding of the token (no exchange request is made), the exchange
  request, the response handler or the \<^verbatim>\<open>print\<close> of the access token; each of these
  errors comes out as it was raised.
\<close>

theorem refresh_failure:
  assumes "live h self"
    and "refresh cl r self h s = (Inl e, h', s')"
  shows "h' = h \<and>
    (case token_endpoint_request cl (k8s_call (h ! self) r) (world s) of
       (Inl x, w) \<Rightarrow> e = x \<and> sent s' = sent s @ [k8s_call (h ! self) r]
     | (Inr d, w) \<Rightarrow>
         (case status_token d of
            Inl x \<Rightarrow>
              e = (case x of
                     KeyError k \<Rightarrow>
                       RefreshError (ascii ''No access token in k8s token response.'') d (Some x)
                   | _ \<Rightarrow> x)
              \<and> sent s' = sent s @ [k8s_call (h ! self) r]
          | Inr t \<Rightarrow>
              (case stdout_write cl (Print ''received k8s token: {}'' t) w of
                 (Inl x, w1) \<Rightarrow>
                   e = (case x of
                          KeyError k \<Rightarrow>
                            RefreshError (ascii ''No access token in k8s token response.'') d
                              (Some x)
                        | _ \<Rightarrow> x)
                   \<and> sent s' = sent s @ [k8s_call (h ! self) r]
               | (Inr u, w1) \<Rightarrow>
                   (case encode_k8s_token t of
                      Inl x \<Rightarrow> e = x \<and> sent s' = sent s @ [k8s_call (h ! self) r]
                    | Inr subject \<Rightarrow>
                        (case token_endpoint_request cl
                                (ais_call (h ! self) r (ais_request_body (h ! self) subject)) w1 of
                           (Inl x, w2) \<Rightarrow> e = x
                         | (Inr d2, w2) \<Rightarrow>
                             (case handle_refresh_grant_response cl d2 PNone w2 of
                                (Inl x, w3) \<Rightarrow> e = x
                              | (Inr (at, rt, ex, extra), w3) \<Rightarrow>
                                  fst (stdout_write cl (Print ''received ais token: {}'' at) w3)
                                    = Inl e))))))"
proof -
  let ?c = "h ! self"
  let ?k = "k8s_call ?c r"
  have wrap: "except_KeyError d x
      = (case x of
           KeyError k \<Rightarrow>
             RefreshError (ascii ''No access token in k8s token response.'') d (Some x)
         | _ \<Rightarrow> x)" for d x
    by (cases x) (simp_all add: except_KeyError_def)
  obtain res1 w where k: "token_endpoint_request cl ?k (world s) = (res1, w)"
    by (cases "token_endpoint_request cl ?k (world s)")
  show ?thesis
  proof (cases res1)
    case (Inl x)
    have "refresh cl r self h s = (Inl x, h, s\<lparr>world := w, sent := sent s @ [?k]\<rparr>)"
      by (simp add: refresh_def k8s_transport_error [OF k [unfolded Inl]])
    with assms(2) have eq: "e = x" "h' = h" "s' = s\<lparr>world := w, sent := sent s @ [?k]\<rparr>"
      by auto
    show ?thesis unfolding eq by (simp add: k Inl)
  next
    case (Inr d)
    note k = k [unfolded Inr]
    show ?thesis
    proof (cases "status_token d")
      case (Inl x)
      have "refresh cl r self h s
          = (Inl (except_KeyError d x), h, s\<lparr>world := w, sent := sent s @ [?k]\<rparr>)"
        by (simp add: refresh_def k8s_lookup_error [OF k Inl])
      with assms(2) have eq: "e = except_KeyError d x" "h' = h"
          "s' = s\<lparr>world := w, sent := sent s @ [?k]\<rparr>"
        by auto
      show ?thesis unfolding eq by (simp add: k Inl wrap)
    next
      case tok: (Inr t)
      obtain res0 w1 where p1: "stdout_write cl (Print ''received k8s token: {}'' t) w = (res0, w1)"
        by (cases "stdout_write cl (Print ''received k8s token: {}'' t) w")
      show ?thesis
      proof (cases res0)
        case (Inl x)
        have "refresh cl r self h s
            = (Inl (except_KeyError d x), h, s\<lparr>world := w1, sent := sent s @ [?k]\<rparr>)"
          by (simp add: refresh_def k8s_print_error [OF k tok p1 [unfolded Inl]])
        with assms(2) have eq: "e = except_KeyError d x" "h' = h"
            "s' = s\<lparr>world := w1, sent := sent s @ [?k]\<rparr>"
          by auto
        show ?thesis unfolding eq by (simp add: k tok p1 Inl wrap)
      next
        case printed: (Inr u)
        let ?s1 = "\<lparr>world = w1, sent = sent s @ [?k],
                    stdout = stdout s @ [Print ''received k8s token: {}'' t]\<rparr>"
        have one: "make_k8s_token_request cl ?c r s = (Inr t, ?s1)"
          using k tok p1 [unfolded printed] by (rule k8s_token_found)
        show ?thesis
        proof (cases "encode_k8s_token t")
          case (Inl x)
          have "refresh cl r self h s = (Inl x, h, ?s1)"
            by (simp add: refresh_def one ais_not_encodable [OF Inl])
          with assms(2) have eq: "e = x" "h' = h" "s' = ?s1"
            by auto
          show ?thesis unfolding eq by (simp add: k tok p1 printed Inl)
        next
          case enc: (Inr subject)
          let ?a = "ais_call ?c r (ais_request_body ?c subject)"
          obtain res2 w2 where a: "token_endpoint_request cl ?a w1 = (res2, w2)"
            by (cases "token_endpoint_request cl ?a w1")
          then have a1: "token_endpoint_request cl ?a (world ?s1) = (res2, w2)"
            by simp
          show ?thesis
          proof (cases res2)
            case (Inl x)
            have "refresh cl r self h s
                = (Inl x, h, ?s1\<lparr>world := w2, sent := sent ?s1 @ [?a]\<rparr>)"
              by (simp only: refresh_def Let_def one prod.case sum.case
                  ais_transport_error [OF enc a1 [unfolded Inl]])
            with assms(2) have eq: "e = x" "h' = h"
              by auto
            show ?thesis unfolding eq by (simp add: k tok p1 printed enc a Inl)
          next
            case (Inr d2)
            obtain res3 w3 where g: "handle_refresh_grant_response cl d2 PNone w2 = (res3, w3)"
              by (cases "handle_refresh_grant_response cl d2 PNone w2")
            show ?thesis
            proof (cases res3)
              case (Inl x)
              have "refresh cl r self h s
                  = (Inl x, h, ?s1\<lparr>world := w3, sent := sent ?s1 @ [?a]\<rparr>)"
                by (simp only: refresh_def Let_def one prod.case sum.case
                    ais_handler_error [OF enc a1 [unfolded Inr] g [unfolded Inl]])
              with assms(2) have eq: "e = x" "h' = h"
                by auto
              show ?thesis unfolding eq by (simp add: k tok p1 printed enc a Inr g Inl)
            next
              case ok: (Inr q)
              obtain at rt ex extra where q: "q = (at, rt, ex, extra)" by (cases q)
              note g = g [unfolded ok q]
              obtain res4 w4 where
                p2: "stdout_write cl (Print ''received ais token: {}'' at) w3 = (res4, w4)"
                by (cases "stdout_write cl (Print ''received ais token: {}'' at) w3")
              show ?thesis
              proof (cases res4)
                case (Inl x)
                have "refresh cl r self h s
                    = (Inl x, h, ?s1\<lparr>world := w4, sent := sent ?s1 @ [?a]\<rparr>)"
                  by (simp only: refresh_def Let_def one prod.case sum.case
                      ais_print_error [OF enc a1 [unfolded Inr] g p2 [unfolded Inl]])
                with assms(2) have eq: "e = x" "h' = h"
                  by auto
                show ?thesis unfolding eq by (simp add: k tok p1 printed enc a Inr g p2 Inl)
              next
                case second: (Inr u2)
                have "fst (refresh cl r self h s) = Inr ()"
                  by (simp only: refresh_def Let_def one prod.case sum.case fst_conv
                      ais_token_parsed [OF enc a1 [unfolded Inr] g p2 [unfolded second]])
                with assms(2) show ?thesis by simp
              qed
            qed
          qed
        qed
      qed
    qed
  qed
qed

theorem refresh_failure_witness:
  "fst (snd (refresh scripted () 0 [refreshed_credentials]
        (start [Inr k8s_response_no_token, Inr ais_response_ok]))) = [refreshed_credentials]
   \<and> sent (snd (snd (refresh scripted () 0 [refreshed_credentials]
        (start [Inr k8s_response_no_token, Inr ais_response_ok]))))
     = [k8s_call refreshed_credentials ()]
   \<and> refresh scripted () 0 [refreshed_credentials] (start [Inr k8s_response_ok, Inl ais_failure])
     = (Inl ais_failure, [refreshed_credentials],
        snd (snd (refresh scripted () 0 [refreshed_credentials]
          (start [Inr k8s_response_ok, Inl ais_failure]))))
   \<and> refresh scripted () 0 [refreshed_credentials]
        (start [Inr k8s_response_ok, Inr ais_response_surrogate])
     = (Inl UnicodeEncodeError, [refreshed_credentials],
        snd (snd (refresh scripted () 0 [refreshed_credentials]
          (start [Inr k8s_response_ok, Inr ais_response_surrogate]))))"
proof -
  let ?h = "[refreshed_credentials]"
  let ?s = "start [Inr k8s_response_no_token, Inr ais_response_ok]"
  let ?s' = "start [Inr k8s_response_ok, Inl ais_failure]"
  let ?s'' = "start [Inr k8s_response_ok, Inr ais_response_surrogate]"
  have l: "live ?h 0" by (simp add: live_def)
  have "isl (fst (refresh scripted () 0 ?h ?s))" by code_simp
  then obtain e h1 s1 where first: "refresh scripted () 0 ?h ?s = (Inl e, h1, s1)"
    by (cases "refresh scripted () 0 ?h ?s") (auto simp add: isl_def)
  have t: "status_token k8s_response_no_token = Inl (KeyError (ascii ''token''))"
    by code_simp
  from refresh_failure [OF l first] t
  have a: "h1 = ?h \<and> sent s1 = [k8s_call refreshed_credentials ()]"
    by (simp add: scripted_def start_def)
  have "isl (fst (refresh scripted () 0 ?h ?s'))" by code_simp
  then obtain e' h2 s2 where second: "refresh scripted () 0 ?h ?s' = (Inl e', h2, s2)"
    by (cases "refresh scripted () 0 ?h ?s'") (auto simp add: isl_def)
  have p: "stdout_write scripted (Print ''received k8s token: {}'' (PStr (ascii ''boot-abc''))) w
           = (Inr (), w)" for w
    by (simp add: scripted_def utf8_stdout_def boot_abc_utf8)
  have k: "token_endpoint_request scripted k (x # xs) = (x, xs)" for k x xs
    by (simp add: scripted_def)
  from refresh_failure [OF l second]
  have b: "h2 = ?h \<and> e' = ais_failure"
    by (simp add: start_def k boot_abc_found p boot_abc_subject)
  have "isl (fst (refresh scripted () 0 ?h ?s''))"
    by (simp add: surrogate_run)
  then obtain e'' h3 s3 where third: "refresh scripted () 0 ?h ?s'' = (Inl e'', h3, s3)"
    by (cases "refresh scripted () 0 ?h ?s''") (auto simp add: isl_def)
  from refresh_failure [OF l third]
  have c: "h3 = ?h \<and> e'' = UnicodeEncodeError"
    by (simp add: start_def k boot_abc_found p boot_abc_subject surrogate_extracted
        surrogate_not_printed)
  from a b c show ?thesis by (simp add: first second third)
qed

section \<open>The two requests\<close>

text \<open>
  C8. Every \<open>refresh\<close> first calls the token-endpoint helper with the bootstrap endpoint of
  the credential, an empty body, the pair of client certificate and key, the bootstrap CA path,
  and 201 as the expected status.
\<close>

theorem bootstrap_request:
  assumes "live h self"
  shows "prefix
     (sent s @
      [\<lparr>request = r, url = k8s_token_endpoint (h ! self), body = [], fourth = PNone,
        fifth = True, cert = Some (k8s_cert_path (h ! self), k8s_key_path (h ! self)),
        verify = k8s_ca_cert_path (h ! self), expected_status = Some 201\<rparr>])
     (sent (snd (snd (refresh cl r self h s))))"
proof -
  let ?c = "h ! self"
  obtain res1 s1 where one: "make_k8s_token_request cl ?c r s = (res1, s1)"
    by (cases "make_k8s_token_request cl ?c r s")
  have s1: "sent s1 = sent s @ [k8s_call ?c r]"
    using k8s_sent [of cl ?c r s] one by simp
  have "prefix (sent s1) (sent (snd (snd (refresh cl r self h s))))"
  proof (cases res1)
    case (Inl e)
    then show ?thesis by (simp add: refresh_def one)
  next
    case (Inr t)
    obtain res2 s2 where two: "make_ais_token_request cl ?c t r s1 = (res2, s2)"
      by (cases "make_ais_token_request cl ?c t r s1")
    have "prefix (sent s1) (sent s2)"
      using ais_sent_prefix [of s1 cl ?c t r] two by simp
    moreover have "snd (snd (refresh cl r self h s)) = s2"
      by (cases res2) (auto simp add: refresh_def one Inr two)
    ultimately show ?thesis by simp
  qed
  then show ?thesis
    by (simp add: s1 k8s_call_def CREATED_def)
qed

theorem bootstrap_request_witness:
  "prefix
     [\<lparr>request = (), url = ascii ''https://k8s.local/token'', body = [], fourth = PNone,
       fifth = True, cert = Some (ascii ''/k8s/tls.crt'', ascii ''/k8s/tls.key''),
       verify = ascii ''/k8s/ca.crt'', expected_status = Some 201\<rparr>]
     (sent (snd (snd (refresh scripted () 0 [example_credentials]
        (start [Inr k8s_response_ok, Inr ais_response_ok])))))"
proof -
  have l: "live [example_credentials] 0" by (simp add: live_def)
  from bootstrap_request [OF l, of "start [Inr k8s_response_ok, Inr ais_response_ok]" "()" scripted]
  show ?thesis
    by (simp add: start_def example_credentials_def init_def)
qed

text \<open>
  C4. When step 1 has produced a token that is a \<open>str\<close> with a UTF-8 encoding, the
  second and last request of \<open>refresh\<close> goes to the exchange endpoint with no client
  certificate and with the exchange CA path, and its body has exactly the five fields
  \<open>grant_type\<close>, \<open>audience\<close>, \<open>requested_token_type\<close>, \<open>subject_token\<close> and
  \<open>subject_token_type\<close>: the three protocol constants, the audience of the credential,
  and the Base64 text of the encoded token.
\<close>

theorem exchange_request:
  assumes "live h self"
    and "make_k8s_token_request cl (h ! self) r s = (Inr (PStr t), s1)"
    and "str_encode t = Inr bs"
  shows "sent (snd (snd (refresh cl r self h s))) =
     sent s @
     [k8s_call (h ! self) r,
      \<lparr>request = r, url = ais_token_endpoint (h ! self),
       body =
         [(ascii ''grant_type'', PStr (ascii ''urn:ietf:params:oauth:token-type:token-exchange'')),
          (ascii ''audience'', PStr (audience (h ! self))),
          (ascii ''requested_token_type'',
             PStr (ascii ''urn:ietf:params:oauth:token-type:access_token'')),
          (ascii ''subject_token'', PStr (map of_char (b64encode bs))),
          (ascii ''subject_token_type'',
             PStr (ascii ''urn:k8s:params:oauth:token-type:serviceaccount''))],
       fourth = PNone, fifth = True, cert = None, verify = ais_ca_cert_path (h ! self),
       expected_status = None\<rparr>]
   \<and> distinct [ascii ''grant_type'', ascii ''audience'', ascii ''requested_token_type'',
        ascii ''subject_token'', ascii ''subject_token_type'']"
proof -
  have "distinct [ascii ''grant_type'', ascii ''audience'',
      ascii ''requested_token_type'', ascii ''subject_token'', ascii ''subject_token_type'']"
    by (simp add: ascii_def)
  with refresh_requests [OF assms(2,3)] show ?thesis
    by (simp add: ais_call_def ais_request_body_def TOKEN_EXCHANGE_TYPE_def
        ACCESS_TOKEN_TOKEN_TYPE_def SERVICE_ACCOUNT_TOKEN_TYPE_def)
qed

theorem exchange_request_witness:
  "sent (snd (snd (refresh scripted () 0 [example_credentials]
       (start [Inr k8s_response_ok, Inr ais_response_ok])))) =
     [k8s_call example_credentials (),
      \<lparr>request = (), url = ascii ''https://ais.local/sts'',
       body =
         [(ascii ''grant_type'', PStr (ascii ''urn:ietf:params:oauth:token-type:token-exchange'')),
          (ascii ''audience'', PStr (ascii ''https://service.local'')),
          (ascii ''requested_token_type'',
             PStr (ascii ''urn:ietf:params:oauth:token-type:access_token'')),
          (ascii ''subject_token'', PStr (ascii ''Ym9vdC1hYmM='')),
          (ascii ''subject_token_type'',
             PStr (ascii ''urn:k8s:params:oauth:token-type:serviceaccount''))],
       fourth = PNone, fifth = True, cert = None, verify = ascii ''/ais/ca.crt'',
       expected_status = None\<rparr>]"
proof -
  let ?h = "[example_credentials]"
  let ?s = "start [Inr k8s_response_ok, Inr ais_response_ok]"
  have l: "live ?h 0" by (simp add: live_def)
  have "fst (make_k8s_token_request scripted (?h ! 0) () ?s) = Inr (PStr (ascii ''boot-abc''))"
    by code_simp
  then obtain s1 where
    one: "make_k8s_token_request scripted (?h ! 0) () ?s = (Inr (PStr (ascii ''boot-abc'')), s1)"
    by (cases "make_k8s_token_request scripted (?h ! 0) () ?s") auto
  have u: "str_encode (ascii ''boot-abc'') = Inr ''boot-abc''"
    by code_simp
  have b: "b64encode ''boot-abc'' = ''Ym9vdC1hYmM=''"
    by code_simp
  from exchange_request [OF l one u]
  show ?thesis
    unfolding b by (simp add: start_def example_credentials_def init_def ascii_def)
qed

text \<open>
  C5. Whatever \<open>str\<close> step 1 returns as bootstrap token, \<open>refresh\<close> either cannot encode
  it (then it raises that error and sends no exchange request), or the request it sends
  to the exchange endpoint carries in \<open>subject_token\<close> the Base64 text of the UTF-8 bytes
  of the token, encoded once, and decoding that value (Base64, then UTF-8) gives the
  token back.
\<close>

theorem subject_token_round_trip:
  assumes "live h self"
    and "make_k8s_token_request cl (h ! self) r s = (Inr (PStr t), s1)"
  shows "case str_encode t of
      Inl e \<Rightarrow>
        fst (refresh cl r self h s) = Inl e
        \<and> sent (snd (snd (refresh cl r self h s))) = sent s @ [k8s_call (h ! self) r]
    | Inr bs \<Rightarrow>
        length (sent (snd (snd (refresh cl r self h s)))) = length (sent s) + 2
        \<and> url (last (sent (snd (snd (refresh cl r self h s))))) = ais_token_endpoint (h ! self)
        \<and> map_of (body (last (sent (snd (snd (refresh cl r self h s))))))
            (ascii ''subject_token'') = Some (PStr (map of_char (b64encode bs)))
        \<and> b64decode_str (map of_char (b64encode bs)) = Inr t"
proof (cases "str_encode t")
  case (Inl e)
  then have "encode_k8s_token (PStr t) = Inl e"
    by (simp add: encode_k8s_token_def)
  then have "make_ais_token_request cl (h ! self) (PStr t) r s1 = (Inl e, s1)"
    by (rule ais_not_encodable)
  then have "refresh cl r self h s = (Inl e, h, s1)"
    by (simp add: refresh_def assms(2))
  moreover have "sent s1 = sent s @ [k8s_call (h ! self) r]"
    using k8s_sent [of cl "h ! self" r s] assms(2) by simp
  ultimately show ?thesis by (simp add: Inl)
next
  case (Inr bs)
  have "map_of (ais_request_body (h ! self) (map of_char (b64encode bs)))
      (ascii ''subject_token'') = Some (PStr (map of_char (b64encode bs)))"
    by (simp add: ais_request_body_def ascii_def)
  with refresh_requests [OF assms(2) Inr] b64decode_str_encoded [OF Inr]
  show ?thesis by (simp add: Inr ais_call_def)
qed

theorem subject_token_round_trip_witness:
  "map_of (body (last (sent (snd (snd (refresh scripted () 0 [example_credentials]
       (start [Inr k8s_response_ok, Inr ais_response_ok]))))))) (ascii ''subject_token'')
     = Some (PStr (ascii ''Ym9vdC1hYmM=''))
   \<and> str_encode (ascii ''boot-abc'') = Inr ''boot-abc''
   \<and> b64encode ''boot-abc'' = ''Ym9vdC1hYmM=''
   \<and> b64decode_str (ascii ''Ym9vdC1hYmM='') = Inr (ascii ''boot-abc'')"
proof -
  let ?h = "[example_credentials]"
  let ?s = "start [Inr k8s_response_ok, Inr ais_response_ok]"
  have l: "live ?h 0" by (simp add: live_def)
  have "fst (make_k8s_token_request scripted (?h ! 0) () ?s) = Inr (PStr (ascii ''boot-abc''))"
    by code_simp
  then obtain s1 where
    one: "make_k8s_token_request scripted (?h ! 0) () ?s = (Inr (PStr (ascii ''boot-abc'')), s1)"
    by (cases "make_k8s_token_request scripted (?h ! 0) () ?s") auto
  have b: "b64encode ''boot-abc'' = ''Ym9vdC1hYmM=''"
    by code_simp
  have m: "map of_char ''Ym9vdC1hYmM='' = ascii ''Ym9vdC1hYmM=''"
    by (simp add: ascii_def)
  from subject_token_round_trip [OF l one]
  have "map_of (body (last (sent (snd (snd (refresh scripted () 0 ?h ?s))))))
          (ascii ''subject_token'') = Some (PStr (ascii ''Ym9vdC1hYmM=''))
     \<and> b64decode_str (ascii ''Ym9vdC1hYmM='') = Inr (ascii ''boot-abc'')"
    by (simp only: boot_abc_utf8 sum.case b m)
  with boot_abc_utf8 b show ?thesis by blast
qed

text \<open>
  C9. A \<open>refresh\<close> that succeeds prints exactly two lines on standard output, in this
  order: the bootstrap token as it was read from the response, and the access token
  that it stores; a token that is a \<open>str\<close> appears in the line as it is, after the
  fixed prefix.
\<close>

theorem refresh_prints_tokens:
  assumes "live h self"
    and "token_endpoint_request cl (k8s_call (h ! self) r) (world s) = (Inr d, w1)"
    and "status_token d = Inr k8s_token"
    and "refresh cl r self h s = (Inr (), h', s')"
  shows "stdout s' =
      stdout s @ [Print ''received k8s token: {}'' k8s_token,
                  Print ''received ais token: {}'' (token (h' ! self))]
    \<and> format_str ''received k8s token: {}'' x = ascii ''received k8s token: '' @ x
    \<and> format_str ''received ais token: {}'' y = ascii ''received ais token: '' @ y"
proof -
  let ?c = "h ! self"
  obtain res1 s1 where one: "make_k8s_token_request cl ?c r s = (res1, s1)"
    by (cases "make_k8s_token_request cl ?c r s")
  from assms(4) obtain t where res1: "res1 = Inr t"
    by (cases res1) (auto simp add: refresh_def one)
  from k8s_returned [OF one [unfolded res1] assms(2)] assms(3)
  have t: "t = k8s_token"
    and s1: "stdout s1 = stdout s @ [Print ''received k8s token: {}'' k8s_token]"
    by simp_all
  obtain res2 s2 where two: "make_ais_token_request cl ?c t r s1 = (res2, s2)"
    by (cases "make_ais_token_request cl ?c t r s1")
  from assms(4) obtain at ex where res2: "res2 = Inr (at, ex)"
    by (cases res2) (auto simp add: refresh_def one res1 two)
  from assms(4) have h': "h' = h[self := ?c\<lparr>token := at, expiry := ex\<rparr>]" and s': "s' = s2"
    by (auto simp add: refresh_def one res1 two res2)
  from assms(1) have "self < length h" by (simp add: live_def)
  then have at: "token (h' ! self) = at" by (simp add: h')
  from ais_success_stdout [OF two [unfolded res2]] s1
  have "stdout s2 = stdout s @ [Print ''received k8s token: {}'' k8s_token,
      Print ''received ais token: {}'' at]"
    by simp
  then show ?thesis
    by (simp only: s' at format_str_k8s format_str_ais simp_thms)
qed

theorem refresh_prints_tokens_witness:
  "stdout (snd (snd (refresh scripted () 0 [example_credentials]
       (start [Inr k8s_response_ok, Inr ais_response_ok])))) =
     [Print ''received k8s token: {}'' (PStr (ascii ''boot-abc'')),
      Print ''received ais token: {}'' (PStr (ascii ''final-xyz''))]
   \<and> format_str ''received k8s token: {}'' (ascii ''boot-abc'')
     = ascii ''received k8s token: boot-abc''
   \<and> format_str ''received ais token: {}'' (ascii ''final-xyz'')
     = ascii ''received ais token: final-xyz''"
proof -
  let ?h = "[example_credentials]"
  let ?s = "start [Inr k8s_response_ok, Inr ais_response_ok]"
  have l: "live ?h 0" by (simp add: live_def)
  have k: "token_endpoint_request scripted (k8s_call (?h ! 0) ()) (world ?s)
           = (Inr k8s_response_ok, [Inr ais_response_ok])"
    by (simp add: scripted_def start_def)
  have t: "status_token k8s_response_ok = Inr (PStr (ascii ''boot-abc''))"
    by code_simp
  have "fst (refresh scripted () 0 ?h ?s) = Inr ()
    \<and> token (fst (snd (refresh scripted () 0 ?h ?s)) ! 0) = PStr (ascii ''final-xyz'')"
    by code_simp
  then obtain h' s' where run: "refresh scripted () 0 ?h ?s = (Inr (), h', s')"
    and at: "token (h' ! 0) = PStr (ascii ''final-xyz'')"
    by (cases "refresh scripted () 0 ?h ?s") auto
  note printed =
    refresh_prints_tokens [OF l k t run, of "ascii ''boot-abc''" "ascii ''final-xyz''"]
  from printed have out: "stdout s' =
     [Print ''received k8s token: {}'' (PStr (ascii ''boot-abc'')),
      Print ''received ais token: {}'' (PStr (ascii ''final-xyz''))]"
    by (simp add: at start_def)
  from printed have rendered:
    "format_str ''received k8s token: {}'' (ascii ''boot-abc'')
       = ascii ''received k8s token: boot-abc''"
    "format_str ''received ais token: {}'' (ascii ''final-xyz'')
       = ascii ''received ais token: final-xyz''"
    by (simp_all add: ascii_def)
  from out rendered show ?thesis by (simp add: run)
qed

section \<open>Derived credentials\<close>

lemma init_unrefreshed: "token (init a b c d e f g q) = PNone \<and> expiry (init a b c d e f g q) = None"
  by (simp add: init_def base_init_def)

text \<open>
  C6. \<open>with_audience\<close> returns a reference to a new object whose audience is the one
  given, whose CA, certificate and key paths and whose two endpoints are those of the
  original, and which is unrefreshed (no token, no expiry) whatever the state of the original.
\<close>

theorem with_audience_instance:
  assumes "live h self"
  shows "case with_audience h self a of
      (new, h') \<Rightarrow>
        \<not> live h new \<and> live h' new \<and> new \<noteq> self
        \<and> audience (h' ! new) = a
        \<and> k8s_ca_cert_path (h' ! new) = k8s_ca_cert_path (h ! self)
        \<and> k8s_cert_path (h' ! new) = k8s_cert_path (h ! self)
        \<and> k8s_key_path (h' ! new) = k8s_key_path (h ! self)
        \<and> k8s_token_endpoint (h' ! new) = k8s_token_endpoint (h ! self)
        \<and> ais_ca_cert_path (h' ! new) = ais_ca_cert_path (h ! self)
        \<and> ais_token_endpoint (h' ! new) = ais_token_endpoint (h ! self)
        \<and> token (h' ! new) = PNone \<and> expiry (h' ! new) = None"
  using assms
  by (auto simp add: with_audience_def Let_def live_def init_unrefreshed) (simp_all add: init_def)

theorem with_audience_instance_witness:
  "live [refreshed_credentials] 0
   \<and> token ([refreshed_credentials] ! 0) = PStr (ascii ''final-xyz'')
   \<and> fst (with_audience [refreshed_credentials] 0 (ascii ''https://other.local'')) = 1
   \<and> audience (snd (with_audience [refreshed_credentials] 0 (ascii ''https://other.local'')) ! 1)
       = ascii ''https://other.local''
   \<and> k8s_token_endpoint
        (snd (with_audience [refreshed_credentials] 0 (ascii ''https://other.local'')) ! 1)
       = ascii ''https://k8s.local/token''
   \<and> token (snd (with_audience [refreshed_credentials] 0 (ascii ''https://other.local'')) ! 1)
       = PNone
   \<and> expiry (snd (with_audience [refreshed_credentials] 0 (ascii ''https://other.local'')) ! 1)
       = None"
proof -
  have l: "live [refreshed_credentials] 0" by (simp add: live_def)
  have n: "fst (with_audience [refreshed_credentials] 0 (ascii ''https://other.local'')) = 1"
    by (simp add: with_audience_def)
  from with_audience_instance [OF l, of "ascii ''https://other.local''"] l n
  show ?thesis
    by (simp add: refreshed_credentials_def example_credentials_def init_def
        split: prod.splits)
qed

text \<open>
  C7. \<open>with_quota_project\<close> returns a reference to a new object whose quota project is the
  one given, whose audience, paths and endpoints are those of the original, and which is
  unrefreshed.
\<close>

theorem with_quota_project_instance:
  assumes "live h self"
  shows "case with_quota_project h self q of
      (new, h') \<Rightarrow>
        \<not> live h new \<and> live h' new \<and> new \<noteq> self
        \<and> quota_project_id (h' ! new) = q
        \<and> audience (h' ! new) = audience (h ! self)
        \<and> k8s_ca_cert_path (h' ! new) = k8s_ca_cert_path (h ! self)
        \<and> k8s_cert_path (h' ! new) = k8s_cert_path (h ! self)
        \<and> k8s_key_path (h' ! new) = k8s_key_path (h ! self)
        \<and> k8s_token_endpoint (h' ! new) = k8s_token_endpoint (h ! self)
        \<and> ais_ca_cert_path (h' ! new) = ais_ca_cert_path (h ! self)
        \<and> ais_token_endpoint (h' ! new) = ais_token_endpoint (h ! self)
        \<and> token (h' ! new) = PNone \<and> expiry (h' ! new) = None"
  using assms
  by (auto simp add: with_quota_project_def Let_def live_def init_unrefreshed)
    (simp_all add: init_def)

theorem with_quota_project_instance_witness:
  "live [refreshed_credentials] 0
   \<and> token ([refreshed_credentials] ! 0) = PStr (ascii ''final-xyz'')
   \<and> fst (with_quota_project [refreshed_credentials] 0 (Some (ascii ''billing-1''))) = 1
   \<and> quota_project_id
        (snd (with_quota_project [refreshed_credentials] 0 (Some (ascii ''billing-1''))) ! 1)
       = Some (ascii ''billing-1'')
   \<and> audience
        (snd (with_quota_project [refreshed_credentials] 0 (Some (ascii ''billing-1''))) ! 1)
       = ascii ''https://service.local''
   \<and> token (snd (with_quota_project [refreshed_credentials] 0 (Some (ascii ''billing-1''))) ! 1)
       = PNone
   \<and> expiry (snd (with_quota_project [refreshed_credentials] 0 (Some (ascii ''billing-1''))) ! 1)
       = None"
proof -
  have l: "live [refreshed_credentials] 0" by (simp add: live_def)
  have n: "fst (with_quota_project [refreshed_credentials] 0 (Some (ascii ''billing-1''))) = 1"
    by (simp add: with_quota_project_def)
  from with_quota_project_instance [OF l, of "Some (ascii ''billing-1'')"] l n
  show ?thesis
    by (simp add: refreshed_credentials_def example_credentials_def init_def
        split: prod.splits)
qed

text \<open>
  C10. The object made by \<open>with_audience\<close> has the quota project of the original, and
  neither \<open>with_audience\<close> nor \<open>with_quota_project\<close> changes any object that was in the heap,
  the original among them.
\<close>

theorem derivation_frame:
  assumes "live h self"
  shows "quota_project_id (snd (with_audience h self a) ! fst (with_audience h self a))
      = quota_project_id (h ! self)
    \<and> take (length h) (snd (with_audience h self a)) = h
    \<and> snd (with_audience h self a) ! self = h ! self
    \<and> take (length h) (snd (with_quota_project h self q)) = h
    \<and> snd (with_quota_project h self q) ! self = h ! self"
  using assms
  by (simp add: with_audience_def with_quota_project_def Let_def live_def init_def nth_append)

theorem derivation_frame_witness:
  "quota_project_id
     (snd (with_audience [refreshed_credentials\<lparr>quota_project_id := Some (ascii ''billing-1'')\<rparr>]
        0 (ascii ''https://other.local'')) ! 1) = Some (ascii ''billing-1'')
   \<and> snd (with_audience [refreshed_credentials\<lparr>quota_project_id := Some (ascii ''billing-1'')\<rparr>]
        0 (ascii ''https://other.local'')) ! 0
     = refreshed_credentials\<lparr>quota_project_id := Some (ascii ''billing-1'')\<rparr>
   \<and> snd (with_quota_project
        [refreshed_credentials\<lparr>quota_project_id := Some (ascii ''billing-1'')\<rparr>] 0 None) ! 0
     = refreshed_credentials\<lparr>quota_project_id := Some (ascii ''billing-1'')\<rparr>"
proof -
  let ?c = "refreshed_credentials\<lparr>quota_project_id := Some (ascii ''billing-1'')\<rparr>"
  have l: "live [?c] 0" by (simp add: live_def)
  have n: "fst (with_audience [?c] 0 (ascii ''https://other.local'')) = 1"
    by (simp add: with_audience_def)
  from derivation_frame [OF l, of "ascii ''https://other.local''" None] n
  show ?thesis by simp
qed

end
